theory Spec2Isabelle
  imports Main "HOL-Library.Multiset" "HOL-Library.Product_Lexorder"
begin

section \<open>The catalog store of quickpizza (pkg/database/catalog.go, pkg/model/user.go)\<close>

text \<open>
  The catalog is a thin layer over a relational store. Everything the store, the
  password package and the error injector decide is an explicit input of the model:
  a statement's failure is an \<open>error option\<close> handed to the operation, the identity
  and creation timestamp that an insert assigns are the store's answer, and the random
  draws of the token generator are a function of the draw's index. Go's \<open>error\<close> is an
  \<open>error option\<close> (\<open>None\<close> is \<open>nil\<close>); the struct a pointer argument refers to is
  returned next to the error, so that its mutation is visible.
\<close>

subsection \<open>Errors\<close>

datatype error =
    ErrNoRows
  | StorageError string
  | InjectedError string
  | DigestError string
  | ValidationError string

subsection \<open>pkg/model/user.go\<close>

record user =
  ID :: int
  Username :: string
  Token :: string
  Password :: string
  PasswordHash :: string

definition UserTokenLength :: nat where
  "UserTokenLength = 16"

definition MaxNameLength :: nat where
  "MaxNameLength = 32"

definition characters :: string where
  "characters = ''abcdefghijklmnopqrstuvwxyzABCDEFGHIJKLMNOPQRSTUVWXYZ0123456789''"

text \<open>
  \<open>GenerateUserToken\<close>: \<open>rnd i\<close> is the raw value behind the \<open>i\<close>-th call of
  \<open>rand.Intn\<close>, which reduces it below its argument.
\<close>

definition GenerateUserToken :: "(nat \<Rightarrow> nat) \<Rightarrow> string" where
  "GenerateUserToken rnd =
     map (\<lambda>i. characters ! (rnd i mod length characters)) [0..<UserTokenLength]"

text \<open>\<open>Validate\<close>: the cases of the switch in their order; \<open>len\<close> counts bytes.\<close>

definition Validate :: "user \<Rightarrow> error option" where
  "Validate u =
     (if Username u = [] then Some (ValidationError ''username field is empty'')
      else if length (Username u) > MaxNameLength
        then Some (ValidationError ''username field is too long'')
      else if Username u = ''default'' then Some (ValidationError ''username field is invalid'')
      else if Password u = [] then Some (ValidationError ''password is empty'')
      else None)"

subsection \<open>Tables\<close>

text \<open>
  A row of a bounded table carries the identity column \<open>id\<close>, the \<open>created_at\<close>
  column the enforcer orders by, and the other columns. A table is the list of its rows
  in the store's scan order: an insert appends, a delete keeps the order of the rows
  that remain.
\<close>

record 'a row =
  row_id :: int
  created_at :: int
  cols :: 'a

type_synonym 'a table = "'a row list"

record user_cols =
  username :: string
  token :: string
  password_hash :: string

record pizza_cols =
  dough_id :: int

record PizzaToIngredients =
  PizzaID :: int
  IngredientID :: int

record database =
  users :: "user_cols table"
  pizzas :: "pizza_cols table"
  pizza_to_ingredients :: "PizzaToIngredients list"

record Catalog =
  db :: database
  fixedPizzas :: int
  fixedUsers :: int
  fixedRatings :: int
  maxPizzas :: int
  maxUsers :: int
  maxRatings :: int

subsection \<open>enforceTableSizeLimits\<close>

text \<open>
  \<open>ORDER BY created_at DESC\<close>: the query names no second sort column, so the order of
  rows with equal timestamps is the store's. The model sorts stably (\<open>sort_key\<close> is an
  insertion sort that keeps equal keys in their order), hence rows with equal
  timestamps come out in scan order.
\<close>

definition order_created_at_desc :: "'a table \<Rightarrow> 'a table" where
  "order_created_at_desc tbl = sort_key (\<lambda>r. - created_at r) tbl"

text \<open>The sub-select: \<open>SELECT id ... ORDER BY created_at DESC LIMIT maximum\<close>.\<close>

definition newest_ids :: "'a table \<Rightarrow> int \<Rightarrow> int list" where
  "newest_ids tbl maximum = map row_id (take (nat maximum) (order_created_at_desc tbl))"

text \<open>
  \<open>enforceTableSizeLimits\<close> returns the error and the table after the call.
  \<open>fault\<close> is the failure of the DELETE statement, if the store reports one; a failed
  statement changes nothing. The DELETE removes the rows with
  \<open>id NOT IN (sub-select) AND id > fixed\<close>.
\<close>

definition enforceTableSizeLimits ::
  "error option \<Rightarrow> 'a table \<Rightarrow> int \<Rightarrow> int \<Rightarrow> error option \<times> 'a table" where
  "enforceTableSizeLimits fault tbl fixed maximum =
     (if maximum \<le> 0 then (None, tbl)
      else case fault of
        Some e \<Rightarrow> (Some e, tbl)
      | None \<Rightarrow>
          (None, filter (\<lambda>r. \<not> (row_id r \<notin> set (newest_ids tbl maximum) \<and> row_id r > fixed)) tbl))"

subsection \<open>Transactions\<close>

text \<open>
  \<open>RunInTx\<close> (bun): begin, run the body, roll back when the body returns an error,
  commit otherwise. \<open>m\<close> is the memory of the caller that the body writes through its
  pointers: a rollback restores the database, not that memory.
\<close>

record tx_env =
  begin_fault :: "error option"
  commit_fault :: "error option"

definition RunInTx ::
  "tx_env \<Rightarrow> ('m \<Rightarrow> database \<Rightarrow> error option \<times> 'm \<times> database) \<Rightarrow> 'm \<Rightarrow> database
     \<Rightarrow> error option \<times> 'm \<times> database" where
  "RunInTx tx fn m d =
     (case begin_fault tx of
        Some e \<Rightarrow> (Some e, m, d)
      | None \<Rightarrow>
          (case fn m d of
             (Some e, m', d') \<Rightarrow> (Some e, m', d)
           | (None, m', d') \<Rightarrow>
               (case commit_fault tx of
                  Some e \<Rightarrow> (Some e, m', d)
                | None \<Rightarrow> (None, m', d'))))"

subsection \<open>RecordUser\<close>

text \<open>
  What the store answers during one \<open>RecordUser\<close>: the transaction's faults, the
  insert's failure or the identity and creation timestamp it gave the row, and the
  failure of the enforcer's DELETE.
\<close>

record user_store =
  user_tx :: tx_env
  user_insert :: "error + int \<times> int"
  user_delete_fault :: "error option"

text \<open>The body of the transaction. The \<open>Password\<close> field is not a column.\<close>

definition record_user_tx ::
  "user_store \<Rightarrow> Catalog \<Rightarrow> user \<Rightarrow> database \<Rightarrow> error option \<times> user \<times> database" where
  "record_user_tx st c u d =
     (case user_insert st of
        Inl e \<Rightarrow> (Some e, u, d)
      | Inr (newid, ts) \<Rightarrow>
          (let u' = u\<lparr>ID := newid\<rparr>;
               d' = d\<lparr>users := users d @
                      [\<lparr>row_id = newid, created_at = ts,
                        cols = \<lparr>username = Username u, token = Token u,
                                 password_hash = PasswordHash u\<rparr>\<rparr>]\<rparr>
           in case enforceTableSizeLimits (user_delete_fault st) (users d')
                     (fixedUsers c) (maxUsers c) of
                (err, t) \<Rightarrow> (err, u', d'\<lparr>users := t\<rparr>)))"

text \<open>
  \<open>RecordUser\<close>: \<open>HashPassword\<close> is the password package's digest function, which can
  fail. The result is the error, the caller's user struct after the call and the catalog
  after the call.
\<close>

definition RecordUser ::
  "(string \<Rightarrow> error + string) \<Rightarrow> (nat \<Rightarrow> nat) \<Rightarrow> user_store \<Rightarrow> Catalog \<Rightarrow> user
     \<Rightarrow> error option \<times> user \<times> Catalog" where
  "RecordUser HashPassword rnd st c u =
     (case HashPassword (Password u) of
        Inl e \<Rightarrow> (Some e, u, c)
      | Inr passwordHash \<Rightarrow>
          (let u1 = u\<lparr>PasswordHash := passwordHash, Token := GenerateUserToken rnd\<rparr>
           in case RunInTx (user_tx st) (record_user_tx st c) u1 (db c) of
                (err, u', d') \<Rightarrow> (err, u', c\<lparr>db := d'\<rparr>)))"

subsection \<open>LoginUser and GetRecommendation\<close>

definition zero_user :: user where
  "zero_user = \<lparr>ID = 0, Username = [], Token = [], Password = [], PasswordHash = []\<rparr>"

definition user_of_row :: "user_cols row \<Rightarrow> user" where
  "user_of_row r =
     \<lparr>ID = row_id r, Username = username (cols r), Token = token (cols r),
      Password = [], PasswordHash = password_hash (cols r)\<rparr>"

text \<open>
  The answer of a store that does not fail to
  \<open>SELECT ... WHERE username = ? LIMIT 1\<close>, scanned into a zero-valued struct: the
  first matching row, or \<open>sql.ErrNoRows\<close> with the struct left as it was.
\<close>

definition select_user :: "user_cols table \<Rightarrow> string \<Rightarrow> error option \<times> user" where
  "select_user tbl name =
     (case find (\<lambda>r. username (cols r) = name) tbl of
        None \<Rightarrow> (Some ErrNoRows, zero_user)
      | Some r \<Rightarrow> (None, user_of_row r))"

text \<open>
  \<open>LoginUser\<close>: \<open>scan\<close> is the store's answer to the query for a username (the error
  of \<open>Scan\<close> and the struct it filled); \<open>CheckPassword\<close> is the password package's
  verification. The result is Go's pair of the pointer and the error.
\<close>

definition LoginUser ::
  "(string \<Rightarrow> string \<Rightarrow> bool) \<Rightarrow> (string \<Rightarrow> error option \<times> user) \<Rightarrow> string \<Rightarrow> string
     \<Rightarrow> user option \<times> error option" where
  "LoginUser CheckPassword scan name passwordText =
     (case scan name of
        (err, u) \<Rightarrow>
          if err = Some ErrNoRows then (None, None)
          else if CheckPassword passwordText (PasswordHash u) then (Some u, None)
          else (None, None))"

text \<open>
  \<open>GetRecommendation\<close>, over any struct type for the pizza: \<open>scan\<close> is the store's
  answer to the query for an identity.
\<close>

definition GetRecommendation ::
  "(int \<Rightarrow> error option \<times> 'p) \<Rightarrow> int \<Rightarrow> 'p option \<times> error option" where
  "GetRecommendation scan i =
     (case scan i of
        (err, p) \<Rightarrow> if err = Some ErrNoRows then (None, None) else (Some p, err))"

subsection \<open>RecordRecommendation\<close>

text \<open>
  Modelled from the spec: the structs \<open>model.Pizza\<close>, \<open>model.Dough\<close> and
  \<open>model.Ingredient\<close> are not among the source files. The records have the fields
  that \<open>RecordRecommendation\<close> reads and writes; the pizza's \<open>Dough\<close> is the
  "required reference to exactly one Dough" of the spec, a reference that may be nil.
\<close>

record dough =
  dough_ID :: int

record ingredient =
  ingredient_ID :: int

record pizza =
  pizza_ID :: int
  DoughID :: int
  Dough :: "dough option"
  Ingredients :: "ingredient list"

text \<open>A call either returns or panics (a nil pointer dereference).\<close>

datatype 'a go_result = Panics | Returns 'a

record pizza_store =
  pizza_tx :: tx_env
  pizza_insert :: "error + int \<times> int"
  join_faults :: "error option list"
  pizza_delete_fault :: "error option"

text \<open>
  The loop over \<open>pizza.Ingredients\<close>: one join row per ingredient, stopping at the
  first insert that fails. \<open>fs\<close> holds the failure of each insert in turn (none
  once the list is used up).
\<close>

fun insert_joins ::
  "error option list \<Rightarrow> int \<Rightarrow> ingredient list \<Rightarrow> PizzaToIngredients list
     \<Rightarrow> error option \<times> PizzaToIngredients list" where
  "insert_joins fs pid [] js = (None, js)"
| "insert_joins fs pid (i # ingrs) js =
     (case fs of
        Some e # _ \<Rightarrow> (Some e, js)
      | _ \<Rightarrow> insert_joins (tl fs) pid ingrs
               (js @ [\<lparr>PizzaID = pid, IngredientID = ingredient_ID i\<rparr>]))"

definition record_recommendation_tx ::
  "pizza_store \<Rightarrow> Catalog \<Rightarrow> pizza \<Rightarrow> database \<Rightarrow> error option \<times> pizza \<times> database" where
  "record_recommendation_tx st c p d =
     (case pizza_insert st of
        Inl e \<Rightarrow> (Some e, p, d)
      | Inr (newid, ts) \<Rightarrow>
          (let p' = p\<lparr>pizza_ID := newid\<rparr>;
               d1 = d\<lparr>pizzas := pizzas d @
                      [\<lparr>row_id = newid, created_at = ts, cols = \<lparr>dough_id = DoughID p\<rparr>\<rparr>]\<rparr>
           in case insert_joins (join_faults st) (pizza_ID p') (Ingredients p')
                     (pizza_to_ingredients d1) of
                (Some e, js) \<Rightarrow> (Some e, p', d1\<lparr>pizza_to_ingredients := js\<rparr>)
              | (None, js) \<Rightarrow>
                  (case enforceTableSizeLimits (pizza_delete_fault st) (pizzas d1)
                          (fixedPizzas c) (maxPizzas c) of
                     (err, t) \<Rightarrow> (err, p', d1\<lparr>pizza_to_ingredients := js, pizzas := t\<rparr>))))"

text \<open>
  \<open>RecordRecommendation\<close>: \<open>injected\<close> is what
  \<open>errorinjector.InjectErrors(ctx, "record-recommendation")\<close> returns, an error when
  the check point is armed.
\<close>

definition RecordRecommendation ::
  "error option \<Rightarrow> pizza_store \<Rightarrow> Catalog \<Rightarrow> pizza
     \<Rightarrow> (error option \<times> pizza \<times> Catalog) go_result" where
  "RecordRecommendation injected st c p =
     (case injected of
        Some e \<Rightarrow> Returns (Some e, p, c)
      | None \<Rightarrow>
          (case Dough p of
             None \<Rightarrow> Panics
           | Some dgh \<Rightarrow>
               (let p1 = p\<lparr>DoughID := dough_ID dgh\<rparr>
                in case RunInTx (pizza_tx st) (record_recommendation_tx st c) p1 (db c) of
                     (err, p', d') \<Rightarrow> Returns (err, p', c\<lparr>db := d'\<rparr>))))"

subsection \<open>Sequences of recorder operations\<close>

datatype recorder_op =
    OpRecordUser "nat \<Rightarrow> nat" user_store user
  | OpRecordRecommendation "error option" pizza_store pizza

text \<open>The catalog after one operation; a panic happens before the transaction opens.\<close>

fun apply_op :: "(string \<Rightarrow> error + string) \<Rightarrow> Catalog \<Rightarrow> recorder_op \<Rightarrow> Catalog" where
  "apply_op hash c (OpRecordUser rnd st u) = snd (snd (RecordUser hash rnd st c u))"
| "apply_op hash c (OpRecordRecommendation injected st p) =
     (case RecordRecommendation injected st c p of
        Panics \<Rightarrow> c
      | Returns (err, p', c') \<Rightarrow> c')"

definition run_ops :: "(string \<Rightarrow> error + string) \<Rightarrow> Catalog \<Rightarrow> recorder_op list \<Rightarrow> Catalog" where
  "run_ops hash c ops = foldl (apply_op hash) c ops"

subsection \<open>The enforcer as the specification words it\<close>

text \<open>
  The specification's rule, for comparison with the code: the \<open>maximum\<close> rows ordered
  by creation timestamp descending, ties broken by identity descending, are selected;
  every row not in that set and whose identity is greater than \<open>fixed\<close> is deleted.
\<close>

definition spec_order :: "'a table \<Rightarrow> 'a table" where
  "spec_order tbl = sort_key (\<lambda>r. (- created_at r, - row_id r)) tbl"

definition spec_enforce :: "'a table \<Rightarrow> int \<Rightarrow> int \<Rightarrow> 'a table" where
  "spec_enforce tbl fixed maximum =
     (if maximum \<le> 0 then tbl
      else filter (\<lambda>r. \<not> (r \<notin> set (take (nat maximum) (spec_order tbl)) \<and> row_id r > fixed)) tbl)"

subsection \<open>Protected rows across operations\<close>

text \<open>
  \<open>protected_kept c c'\<close>: the parameters of the catalog are the same in \<open>c'\<close>, and every
  row of a bounded table of \<open>c\<close> whose identity is at most the table's \<open>fixed\<close>
  parameter is a row of that table in \<open>c'\<close>.
\<close>

definition protected_kept :: "Catalog \<Rightarrow> Catalog \<Rightarrow> bool" where
  "protected_kept c c' \<longleftrightarrow>
     fixedUsers c' = fixedUsers c \<and> fixedPizzas c' = fixedPizzas c \<and>
     (\<forall>r\<in>set (users (db c)). row_id r \<le> fixedUsers c \<longrightarrow> r \<in> set (users (db c'))) \<and>
     (\<forall>r\<in>set (pizzas (db c)). row_id r \<le> fixedPizzas c \<longrightarrow> r \<in> set (pizzas (db c')))"

section \<open>Properties\<close>

subsection \<open>The ordering and the selected rows\<close>

lemma order_sorted: "sorted (map (\<lambda>r. - created_at r) (order_created_at_desc tbl))"
  unfolding order_created_at_desc_def by (rule sorted_sort_key)

lemma selected_newer:
  assumes "a \<in> set (take n (order_created_at_desc tbl))"
    and "b \<in> set (drop n (order_created_at_desc tbl))"
  shows "created_at b \<le> created_at a"
proof -
  let ?L = "order_created_at_desc tbl"
  have "sorted (map (\<lambda>r. - created_at r) (take n ?L @ drop n ?L))"
    using order_sorted [of tbl] by simp
  then have "\<forall>x\<in>set (take n ?L). \<forall>y\<in>set (drop n ?L). - created_at x \<le> - created_at y"
    unfolding map_append sorted_append by auto
  with assms show ?thesis by auto
qed

lemma selected_rest_mset:
  "mset (take n (order_created_at_desc tbl)) + mset (drop n (order_created_at_desc tbl)) = mset tbl"
proof -
  let ?L = "order_created_at_desc tbl"
  have "mset (take n ?L) + mset (drop n ?L) = mset (take n ?L @ drop n ?L)"
    by (simp only: mset_append)
  also have "\<dots> = mset ?L"
    by (simp only: append_take_drop_id)
  also have "\<dots> = mset tbl"
    by (simp add: order_created_at_desc_def)
  finally show ?thesis .
qed

lemma length_newest_ids: "length (newest_ids tbl maximum) = min (nat maximum) (length tbl)"
  by (simp add: newest_ids_def order_created_at_desc_def min.commute)

lemma distinct_newest_ids:
  assumes "distinct (map row_id tbl)"
  shows "distinct (newest_ids tbl maximum)"
proof -
  have "distinct (map row_id (order_created_at_desc tbl))"
    using assms by (simp add: order_created_at_desc_def distinct_map)
  then have "distinct (take (nat maximum) (map row_id (order_created_at_desc tbl)))"
    by (rule distinct_take)
  then show ?thesis by (simp add: newest_ids_def take_map)
qed

lemma newest_ids_subset: "set (newest_ids tbl maximum) \<subseteq> row_id ` set tbl"
proof -
  have "set (take (nat maximum) (order_created_at_desc tbl)) \<subseteq> set (order_created_at_desc tbl)"
    by (rule set_take_subset)
  then show ?thesis by (auto simp: newest_ids_def order_created_at_desc_def)
qed

lemma length_filter_ids:
  assumes "distinct (map row_id tbl)" "distinct ids" "set ids \<subseteq> row_id ` set tbl"
  shows "length (filter (\<lambda>r. row_id r \<in> set ids) tbl) = length ids"
proof -
  have "length (filter (\<lambda>r. row_id r \<in> set ids) tbl)
      = length (filter (\<lambda>i. i \<in> set ids) (map row_id tbl))"
    by (simp add: filter_map comp_def)
  also have "\<dots> = card ({i. i \<in> set ids} \<inter> set (map row_id tbl))"
    using assms(1) by (rule distinct_length_filter)
  also have "{i. i \<in> set ids} \<inter> set (map row_id tbl) = set ids"
    using assms(3) by auto
  also have "card (set ids) = length ids"
    using assms(2) by (rule distinct_card)
  finally show ?thesis .
qed

lemma length_filter_disj:
  "length (filter (\<lambda>x. P x \<or> Q x) xs) = length (filter P xs) + length (filter (\<lambda>x. Q x \<and> \<not> P x) xs)"
  by (induction xs) auto

lemma enforce_length:
  assumes "distinct (map row_id tbl)" "0 < maximum"
  shows "length (snd (enforceTableSizeLimits None tbl fixed maximum))
       = min (nat maximum) (length tbl)
         + length (filter (\<lambda>r. row_id r \<le> fixed \<and> row_id r \<notin> set (newest_ids tbl maximum)) tbl)"
proof -
  have "snd (enforceTableSizeLimits None tbl fixed maximum)
      = filter (\<lambda>r. row_id r \<in> set (newest_ids tbl maximum) \<or> row_id r \<le> fixed) tbl"
    using assms(2) by (simp add: enforceTableSizeLimits_def not_less)
  moreover have "length (filter (\<lambda>r. row_id r \<in> set (newest_ids tbl maximum)) tbl)
      = min (nat maximum) (length tbl)"
    using length_filter_ids [OF assms(1) distinct_newest_ids [OF assms(1)] newest_ids_subset]
    by (simp add: length_newest_ids)
  ultimately show ?thesis
    by (simp only: length_filter_disj)
qed

subsection \<open>Rows the enforcer keeps\<close>

lemma enforce_keeps_fixed:
  "r \<in> set tbl \<Longrightarrow> row_id r \<le> fixed \<Longrightarrow>
   r \<in> set (snd (enforceTableSizeLimits fault tbl fixed maximum))"
  by (simp add: enforceTableSizeLimits_def split: option.split)

lemma take_filter_all:
  "(\<And>x. x \<in> set (take m ys) \<Longrightarrow> P x) \<Longrightarrow> take m (filter P ys) = take m ys"
proof (induction ys arbitrary: m)
  case Nil
  then show ?case by simp
next
  case (Cons y ys)
  show ?case
  proof (cases m)
    case 0
    then show ?thesis by simp
  next
    case (Suc k)
    from Cons.prems Suc have py: "P y" by simp
    from Cons.prems Suc have "\<And>x. x \<in> set (take k ys) \<Longrightarrow> P x" by simp
    then have "take k (filter P ys) = take k ys" by (rule Cons.IH)
    with py Suc show ?thesis by simp
  qed
qed

lemma order_filter:
  "order_created_at_desc (filter P tbl) = filter P (order_created_at_desc tbl)"
  by (simp add: order_created_at_desc_def filter_sort)

lemma newest_ids_filter_kept:
  "newest_ids (filter (\<lambda>r. \<not> (row_id r \<notin> set (newest_ids tbl maximum) \<and> row_id r > fixed)) tbl) maximum
     = newest_ids tbl maximum"
proof -
  let ?P = "\<lambda>r. \<not> (row_id r \<notin> set (newest_ids tbl maximum) \<and> row_id r > fixed)"
  have "\<And>x. x \<in> set (take (nat maximum) (order_created_at_desc tbl)) \<Longrightarrow> ?P x"
    by (simp add: newest_ids_def)
  then have "take (nat maximum) (filter ?P (order_created_at_desc tbl))
      = take (nat maximum) (order_created_at_desc tbl)"
    by (rule take_filter_all)
  then show ?thesis
    by (simp add: newest_ids_def order_filter)
qed

lemma newest_ids_filter_kept':
  "newest_ids (filter (\<lambda>r. row_id r \<in> set (newest_ids tbl maximum) \<or> \<not> fixed < row_id r) tbl) maximum
     = newest_ids tbl maximum"
  using newest_ids_filter_kept [of tbl maximum fixed] by simp

lemma enforce_idem:
  "snd (enforceTableSizeLimits f2 (snd (enforceTableSizeLimits None tbl fixed maximum)) fixed maximum)
     = snd (enforceTableSizeLimits None tbl fixed maximum)"
  by (simp add: enforceTableSizeLimits_def newest_ids_filter_kept' split: option.split)

subsection \<open>The code's ordering and the specification's\<close>

lemma filter_same_key:
  "distinct (map g xs) \<Longrightarrow> k \<in> set xs \<Longrightarrow> filter (\<lambda>x. g k = g x) xs = [k]"
proof (induction xs)
  case Nil
  then show ?case by simp
next
  case (Cons x xs)
  show ?case
  proof (cases "k = x")
    case True
    from Cons.prems(1) have "\<And>y. y \<in> set xs \<Longrightarrow> g x \<noteq> g y" by auto
    then have "filter (\<lambda>y. g x = g y) xs = []" by (simp add: filter_empty_conv)
    with True show ?thesis by simp
  next
    case False
    with Cons.prems have kin: "k \<in> set xs" and d: "distinct (map g xs)" by auto
    from Cons.prems(1) kin have "g k \<noteq> g x" by (auto simp: image_iff)
    with Cons.IH [OF d kin] show ?thesis by simp
  qed
qed

lemma spec_order_sorted_created:
  "sorted (map (\<lambda>r. - created_at r) (spec_order tbl))"
proof -
  have "sorted (map (\<lambda>r. (- created_at r, - row_id r)) (spec_order tbl))"
    unfolding spec_order_def by (rule sorted_sort_key)
  then have "sorted_wrt (\<lambda>a b. (- created_at a, - row_id a) \<le> (- created_at b, - row_id b)) (spec_order tbl)"
    by (simp add: sorted_map)
  then have "sorted_wrt (\<lambda>a b. - created_at a \<le> - created_at b) (spec_order tbl)"
    by (rule sorted_wrt_mono_rel [rotated]) (auto simp: less_eq_prod_def)
  then show ?thesis by (simp add: sorted_map)
qed

lemma order_eq_spec_order:
  assumes "distinct (map created_at tbl)"
  shows "order_created_at_desc tbl = spec_order tbl"
proof -
  have m: "mset (spec_order tbl) = mset tbl"
    by (simp add: spec_order_def)
  have d: "distinct (map created_at (spec_order tbl))"
    using assms by (simp add: spec_order_def distinct_map)
  have f: "filter (\<lambda>x. - created_at k = - created_at x) (spec_order tbl)
         = filter (\<lambda>x. - created_at k = - created_at x) tbl"
    if "k \<in> set (spec_order tbl)" for k
  proof -
    from that have kin: "k \<in> set tbl" by (simp add: spec_order_def)
    have "filter (\<lambda>x. created_at k = created_at x) (spec_order tbl) = [k]"
      using d that by (rule filter_same_key)
    moreover have "filter (\<lambda>x. created_at k = created_at x) tbl = [k]"
      using assms kin by (rule filter_same_key)
    ultimately show ?thesis by simp
  qed
  show ?thesis
    unfolding order_created_at_desc_def
    using m f spec_order_sorted_created by (rule properties_for_sort_key)
qed

lemma id_in_taken:
  assumes "distinct (map row_id tbl)" "set sel \<subseteq> set tbl" "r \<in> set tbl"
  shows "row_id r \<in> set (map row_id sel) \<longleftrightarrow> r \<in> set sel"
proof -
  from assms(1) have "inj_on row_id (set tbl)" by (simp add: distinct_map)
  with assms(2,3) show ?thesis by (auto dest: inj_onD)
qed

lemma enforce_eq_spec:
  assumes "distinct (map row_id tbl)" "distinct (map created_at tbl)"
  shows "snd (enforceTableSizeLimits None tbl fixed maximum) = spec_enforce tbl fixed maximum"
proof (cases "maximum \<le> 0")
  case True
  then show ?thesis by (simp add: enforceTableSizeLimits_def spec_enforce_def)
next
  case False
  let ?sel = "take (nat maximum) (spec_order tbl)"
  have sub: "set ?sel \<subseteq> set tbl"
    using set_take_subset [of "nat maximum" "spec_order tbl"] by (simp add: spec_order_def)
  have ids: "newest_ids tbl maximum = map row_id ?sel"
    by (simp add: newest_ids_def order_eq_spec_order [OF assms(2)])
  have "filter (\<lambda>r. \<not> (row_id r \<notin> set (newest_ids tbl maximum) \<and> row_id r > fixed)) tbl
      = filter (\<lambda>r. \<not> (r \<notin> set ?sel \<and> row_id r > fixed)) tbl"
  proof (rule filter_cong [OF refl])
    fix r assume "r \<in> set tbl"
    with assms(1) sub have "row_id r \<in> set (map row_id ?sel) \<longleftrightarrow> r \<in> set ?sel"
      by (rule id_in_taken)
    then show "(\<not> (row_id r \<notin> set (newest_ids tbl maximum) \<and> row_id r > fixed))
        = (\<not> (r \<notin> set ?sel \<and> row_id r > fixed))"
      by (simp only: ids)
  qed
  with False show ?thesis
    by (simp only: enforceTableSizeLimits_def spec_enforce_def if_False option.case snd_conv)
qed

subsection \<open>Transactions and the recorder\<close>

lemma RunInTx_cases:
  "snd (snd (RunInTx tx fn m d)) = d \<or> snd (snd (RunInTx tx fn m d)) = snd (snd (fn m d))"
  by (simp add: RunInTx_def case_prod_beta split: option.split)

lemma RunInTx_error_rollback:
  "fst (RunInTx tx fn m d) \<noteq> None \<Longrightarrow> snd (snd (RunInTx tx fn m d)) = d"
  by (auto simp: RunInTx_def split: option.splits prod.splits)

lemma record_user_tx_pizzas:
  "pizzas (snd (snd (record_user_tx st c u d))) = pizzas d"
  by (simp add: record_user_tx_def Let_def case_prod_beta split: sum.split)

lemma record_user_tx_users:
  assumes "r \<in> set (users d)" "row_id r \<le> fixedUsers c"
  shows "r \<in> set (users (snd (snd (record_user_tx st c u d))))"
proof (cases "user_insert st")
  case (Inl e)
  with assms show ?thesis by (simp add: record_user_tx_def)
next
  case (Inr a)
  obtain i t where a: "a = (i, t)" by (cases a)
  let ?tbl = "users d @ [\<lparr>row_id = i, created_at = t,
      cols = \<lparr>username = Username u, token = Token u, password_hash = PasswordHash u\<rparr>\<rparr>]"
  from assms(1) have "r \<in> set ?tbl" by simp
  then have "r \<in> set (snd (enforceTableSizeLimits (user_delete_fault st) ?tbl (fixedUsers c) (maxUsers c)))"
    using assms(2) by (rule enforce_keeps_fixed)
  with Inr a show ?thesis
    by (simp add: record_user_tx_def Let_def case_prod_beta)
qed

lemma record_recommendation_tx_users:
  "users (snd (snd (record_recommendation_tx st c p d))) = users d"
  by (simp add: record_recommendation_tx_def Let_def case_prod_beta split: sum.split option.split)

lemma record_recommendation_tx_pizzas:
  assumes "r \<in> set (pizzas d)" "row_id r \<le> fixedPizzas c"
  shows "r \<in> set (pizzas (snd (snd (record_recommendation_tx st c p d))))"
proof (cases "pizza_insert st")
  case (Inl e)
  with assms show ?thesis by (simp add: record_recommendation_tx_def)
next
  case (Inr a)
  obtain i t where a: "a = (i, t)" by (cases a)
  let ?tbl = "pizzas d @ [\<lparr>row_id = i, created_at = t, cols = \<lparr>dough_id = DoughID p\<rparr>\<rparr>]"
  from assms(1) have "r \<in> set ?tbl" by simp
  then have "r \<in> set (snd (enforceTableSizeLimits (pizza_delete_fault st) ?tbl (fixedPizzas c) (maxPizzas c)))"
    using assms(2) by (rule enforce_keeps_fixed)
  with Inr a assms(1) show ?thesis
    by (simp add: record_recommendation_tx_def Let_def case_prod_beta split: option.split)
qed

lemma RecordUser_catalog:
  "\<exists>d'. snd (snd (RecordUser hash rnd st c u)) = c\<lparr>db := d'\<rparr> \<and>
     (d' = db c \<or> (\<exists>u1. d' = snd (snd (record_user_tx st c u1 (db c)))))"
proof (cases "hash (Password u)")
  case (Inl e)
  then have "snd (snd (RecordUser hash rnd st c u)) = c\<lparr>db := db c\<rparr>"
    by (simp add: RecordUser_def)
  then show ?thesis by blast
next
  case (Inr h)
  let ?u1 = "u\<lparr>PasswordHash := h, Token := GenerateUserToken rnd\<rparr>"
  let ?R = "RunInTx (user_tx st) (record_user_tx st c) ?u1 (db c)"
  from Inr have "snd (snd (RecordUser hash rnd st c u)) = c\<lparr>db := snd (snd ?R)\<rparr>"
    by (simp add: RecordUser_def Let_def case_prod_beta)
  moreover have "snd (snd ?R) = db c \<or> snd (snd ?R) = snd (snd (record_user_tx st c ?u1 (db c)))"
    by (rule RunInTx_cases)
  ultimately show ?thesis by blast
qed

lemma RecordRecommendation_catalog:
  "\<exists>d'. apply_op hash c (OpRecordRecommendation injected st p) = c\<lparr>db := d'\<rparr> \<and>
     (d' = db c \<or> (\<exists>p1. d' = snd (snd (record_recommendation_tx st c p1 (db c)))))"
proof (cases injected)
  case (Some e)
  then have "apply_op hash c (OpRecordRecommendation injected st p) = c\<lparr>db := db c\<rparr>"
    by (simp add: RecordRecommendation_def)
  then show ?thesis by blast
next
  case None
  show ?thesis
  proof (cases "Dough p")
    case N: None
    with None have "apply_op hash c (OpRecordRecommendation injected st p) = c\<lparr>db := db c\<rparr>"
      by (simp add: RecordRecommendation_def)
    then show ?thesis by blast
  next
    case (Some dgh)
    let ?p1 = "p\<lparr>DoughID := dough_ID dgh\<rparr>"
    let ?R = "RunInTx (pizza_tx st) (record_recommendation_tx st c) ?p1 (db c)"
    from None Some have "apply_op hash c (OpRecordRecommendation injected st p) = c\<lparr>db := snd (snd ?R)\<rparr>"
      by (simp add: RecordRecommendation_def Let_def case_prod_beta)
    moreover have "snd (snd ?R) = db c \<or> snd (snd ?R) = snd (snd (record_recommendation_tx st c ?p1 (db c)))"
      by (rule RunInTx_cases)
    ultimately show ?thesis by blast
  qed
qed

lemma protected_kept_refl: "protected_kept c c"
  by (simp add: protected_kept_def)

lemma protected_kept_trans:
  "protected_kept c c' \<Longrightarrow> protected_kept c' c'' \<Longrightarrow> protected_kept c c''"
  by (auto simp: protected_kept_def)

lemma apply_op_protected: "protected_kept c (apply_op hash c op)"
proof (cases op)
  case (OpRecordUser rnd st u)
  obtain d' where c': "snd (snd (RecordUser hash rnd st c u)) = c\<lparr>db := d'\<rparr>"
    and d': "d' = db c \<or> (\<exists>u1. d' = snd (snd (record_user_tx st c u1 (db c))))"
    using RecordUser_catalog by blast
  from d' have "protected_kept c (c\<lparr>db := d'\<rparr>)"
    by (auto simp: protected_kept_def record_user_tx_pizzas record_user_tx_users)
  with OpRecordUser c' show ?thesis by simp
next
  case (OpRecordRecommendation injected st p)
  obtain d' where c': "apply_op hash c (OpRecordRecommendation injected st p) = c\<lparr>db := d'\<rparr>"
    and d': "d' = db c \<or> (\<exists>p1. d' = snd (snd (record_recommendation_tx st c p1 (db c))))"
    using RecordRecommendation_catalog by blast
  from d' have "protected_kept c (c\<lparr>db := d'\<rparr>)"
    by (auto simp: protected_kept_def record_recommendation_tx_users record_recommendation_tx_pizzas)
  with OpRecordRecommendation c' show ?thesis by simp
qed

lemma run_ops_protected: "protected_kept c (run_ops hash c ops)"
  unfolding run_ops_def
proof (induction ops arbitrary: c)
  case Nil
  show ?case by (simp add: protected_kept_refl)
next
  case (Cons op ops)
  have "protected_kept c (apply_op hash c op)" by (rule apply_op_protected)
  moreover have "protected_kept (apply_op hash c op) (foldl (apply_op hash) (apply_op hash c op) ops)"
    by (rule Cons.IH)
  ultimately show ?case by (simp add: protected_kept_trans)
qed

section \<open>The claims about the enforcer\<close>

text \<open>
  C1 (as amended). When \<open>maximum \<le> 0\<close> the enforcer deletes nothing. Otherwise it
  keeps exactly the rows whose identity is among those of the first \<open>maximum\<close> rows in
  descending order of creation timestamp, or is at most \<open>fixed\<close>, and deletes the others:
  the selected rows are \<open>min maximum (length tbl)\<close> rows of the table, none of them
  older than a row that is not selected, and which of several rows with the same
  timestamp is selected is the store's choice (in the model: scan order), not the
  identity's. On a table whose identities are distinct and whose timestamps are distinct
  the result is the one the specification words.
\<close>

theorem enforceTableSizeLimits_deletes_outside_newest:
  "(maximum \<le> 0 \<longrightarrow> enforceTableSizeLimits fault tbl fixed maximum = (None, tbl)) \<and>
   (0 < maximum \<longrightarrow>
      (let sel = take (nat maximum) (order_created_at_desc tbl);
           rest = drop (nat maximum) (order_created_at_desc tbl)
       in mset sel + mset rest = mset tbl \<and>
          length sel = min (nat maximum) (length tbl) \<and>
          (\<forall>a\<in>set sel. \<forall>b\<in>set rest. created_at b \<le> created_at a) \<and>
          enforceTableSizeLimits None tbl fixed maximum =
            (None, filter (\<lambda>r. row_id r \<in> row_id ` set sel \<or> row_id r \<le> fixed) tbl))) \<and>
   (distinct (map row_id tbl) \<and> distinct (map created_at tbl) \<longrightarrow>
      snd (enforceTableSizeLimits None tbl fixed maximum) = spec_enforce tbl fixed maximum)"
proof (intro conjI impI)
  assume "maximum \<le> 0"
  then show "enforceTableSizeLimits fault tbl fixed maximum = (None, tbl)"
    by (simp add: enforceTableSizeLimits_def)
next
  assume pos: "0 < maximum"
  let ?sel = "take (nat maximum) (order_created_at_desc tbl)"
  let ?rest = "drop (nat maximum) (order_created_at_desc tbl)"
  have 1: "mset ?sel + mset ?rest = mset tbl"
    by (rule selected_rest_mset)
  have 2: "length ?sel = min (nat maximum) (length tbl)"
    by (simp add: order_created_at_desc_def min.commute)
  have 3: "\<forall>a\<in>set ?sel. \<forall>b\<in>set ?rest. created_at b \<le> created_at a"
    using selected_newer by blast
  have 4: "enforceTableSizeLimits None tbl fixed maximum =
      (None, filter (\<lambda>r. row_id r \<in> row_id ` set ?sel \<or> row_id r \<le> fixed) tbl)"
    using pos by (simp add: enforceTableSizeLimits_def newest_ids_def not_less)
  from 1 2 3 4
  show "let sel = ?sel; rest = ?rest
        in mset sel + mset rest = mset tbl \<and>
           length sel = min (nat maximum) (length tbl) \<and>
           (\<forall>a\<in>set sel. \<forall>b\<in>set rest. created_at b \<le> created_at a) \<and>
           enforceTableSizeLimits None tbl fixed maximum =
             (None, filter (\<lambda>r. row_id r \<in> row_id ` set sel \<or> row_id r \<le> fixed) tbl)"
    unfolding Let_def by blast
next
  assume "distinct (map row_id tbl) \<and> distinct (map created_at tbl)"
  then show "snd (enforceTableSizeLimits None tbl fixed maximum) = spec_enforce tbl fixed maximum"
    by (simp add: enforce_eq_spec)
qed

theorem enforceTableSizeLimits_deletes_outside_newest_witness:
  "enforceTableSizeLimits None
     [\<lparr>row_id = 1, created_at = 10, cols = ()\<rparr>, \<lparr>row_id = 2, created_at = 20, cols = ()\<rparr>,
      \<lparr>row_id = 3, created_at = 30, cols = ()\<rparr>] 0 2
     = (None, [\<lparr>row_id = 2, created_at = 20, cols = ()\<rparr>, \<lparr>row_id = 3, created_at = 30, cols = ()\<rparr>]) \<and>
   spec_enforce
     [\<lparr>row_id = 1, created_at = 10, cols = ()\<rparr>, \<lparr>row_id = 2, created_at = 20, cols = ()\<rparr>,
      \<lparr>row_id = 3, created_at = 30, cols = ()\<rparr>] 0 2
     = [\<lparr>row_id = 2, created_at = 20, cols = ()\<rparr>, \<lparr>row_id = 3, created_at = 30, cols = ()\<rparr>]"
  using enforceTableSizeLimits_deletes_outside_newest
    [of 2 None "[\<lparr>row_id = 1, created_at = 10, cols = ()\<rparr>, \<lparr>row_id = 2, created_at = 20, cols = ()\<rparr>,
      \<lparr>row_id = 3, created_at = 30, cols = ()\<rparr>]" 0]
  by (simp add: order_created_at_desc_def spec_enforce_def spec_order_def)

text \<open>
  C1 as stated fails: of two rows with the same timestamp, the specification's tie-break
  selects identity 2 and deletes identity 1; the query, with no second sort column,
  selects the row that the store lists first, here identity 1, and deletes identity 2.
\<close>

theorem enforceTableSizeLimits_tie_counterexample:
  "enforceTableSizeLimits None
     [\<lparr>row_id = 1, created_at = 100, cols = ()\<rparr>, \<lparr>row_id = 2, created_at = 100, cols = ()\<rparr>] 0 1
     = (None, [\<lparr>row_id = 1, created_at = 100, cols = ()\<rparr>]) \<and>
   spec_enforce
     [\<lparr>row_id = 1, created_at = 100, cols = ()\<rparr>, \<lparr>row_id = 2, created_at = 100, cols = ()\<rparr>] 0 1
     = [\<lparr>row_id = 2, created_at = 100, cols = ()\<rparr>]"
  by (simp add: enforceTableSizeLimits_def spec_enforce_def newest_ids_def
      order_created_at_desc_def spec_order_def)

text \<open>
  C2. No row whose identity is at most \<open>fixed\<close> is deleted: not by a call of the
  enforcer, whatever the table's size, \<open>maximum\<close> and the store's answer, and not by
  any sequence of \<open>RecordUser\<close> and \<open>RecordRecommendation\<close> calls, whatever the
  store, the digest function and the error injector answer in each of them.
\<close>

theorem enforce_never_deletes_fixed_rows:
  "(r \<in> set tbl \<and> row_id r \<le> fixed \<longrightarrow>
      r \<in> set (snd (enforceTableSizeLimits fault tbl fixed maximum))) \<and>
   (u \<in> set (users (db c)) \<and> row_id u \<le> fixedUsers c \<longrightarrow>
      u \<in> set (users (db (run_ops hash c ops)))) \<and>
   (p \<in> set (pizzas (db c)) \<and> row_id p \<le> fixedPizzas c \<longrightarrow>
      p \<in> set (pizzas (db (run_ops hash c ops))))"
proof -
  have "protected_kept c (run_ops hash c ops)"
    by (rule run_ops_protected)
  then show ?thesis
    by (auto simp: protected_kept_def enforce_keeps_fixed)
qed

theorem enforce_never_deletes_fixed_rows_witness:
  "\<lparr>row_id = 1, created_at = 10, cols = ()\<rparr>
     \<in> set (snd (enforceTableSizeLimits None
         [\<lparr>row_id = 1, created_at = 10, cols = ()\<rparr>, \<lparr>row_id = 2, created_at = 20, cols = ()\<rparr>,
          \<lparr>row_id = 3, created_at = 30, cols = ()\<rparr>] 1 1)) \<and>
   \<lparr>row_id = 1, created_at = 10,
     cols = \<lparr>username = ''admin'', token = ''t'', password_hash = ''h''\<rparr>\<rparr>
     \<in> set (users (db (run_ops Inr
         \<lparr>db = \<lparr>users = [\<lparr>row_id = 1, created_at = 10,
                    cols = \<lparr>username = ''admin'', token = ''t'', password_hash = ''h''\<rparr>\<rparr>],
                 pizzas = [\<lparr>row_id = 1, created_at = 10, cols = \<lparr>dough_id = 7\<rparr>\<rparr>],
                 pizza_to_ingredients = []\<rparr>,
           fixedPizzas = 1, fixedUsers = 1, fixedRatings = 1,
           maxPizzas = 1, maxUsers = 1, maxRatings = 1\<rparr>
         [OpRecordUser (\<lambda>i. 0)
            \<lparr>user_tx = \<lparr>begin_fault = None, commit_fault = None\<rparr>,
              user_insert = Inr (2, 20), user_delete_fault = None\<rparr>
            \<lparr>ID = 0, Username = ''alice'', Token = [], Password = ''pw'', PasswordHash = []\<rparr>]))) \<and>
   \<lparr>row_id = 1, created_at = 10, cols = \<lparr>dough_id = 7\<rparr>\<rparr>
     \<in> set (pizzas (db (run_ops Inr
         \<lparr>db = \<lparr>users = [\<lparr>row_id = 1, created_at = 10,
                    cols = \<lparr>username = ''admin'', token = ''t'', password_hash = ''h''\<rparr>\<rparr>],
                 pizzas = [\<lparr>row_id = 1, created_at = 10, cols = \<lparr>dough_id = 7\<rparr>\<rparr>],
                 pizza_to_ingredients = []\<rparr>,
           fixedPizzas = 1, fixedUsers = 1, fixedRatings = 1,
           maxPizzas = 1, maxUsers = 1, maxRatings = 1\<rparr>
         [OpRecordUser (\<lambda>i. 0)
            \<lparr>user_tx = \<lparr>begin_fault = None, commit_fault = None\<rparr>,
              user_insert = Inr (2, 20), user_delete_fault = None\<rparr>
            \<lparr>ID = 0, Username = ''alice'', Token = [], Password = ''pw'', PasswordHash = []\<rparr>])))"
  using enforce_never_deletes_fixed_rows
    [of "\<lparr>row_id = 1, created_at = 10, cols = ()\<rparr>"
        "[\<lparr>row_id = 1, created_at = 10, cols = ()\<rparr>, \<lparr>row_id = 2, created_at = 20, cols = ()\<rparr>,
          \<lparr>row_id = 3, created_at = 30, cols = ()\<rparr>]" 1 None 1
        "\<lparr>row_id = 1, created_at = 10,
          cols = \<lparr>username = ''admin'', token = ''t'', password_hash = ''h''\<rparr>\<rparr>"
        "\<lparr>db = \<lparr>users = [\<lparr>row_id = 1, created_at = 10,
                    cols = \<lparr>username = ''admin'', token = ''t'', password_hash = ''h''\<rparr>\<rparr>],
                 pizzas = [\<lparr>row_id = 1, created_at = 10, cols = \<lparr>dough_id = 7\<rparr>\<rparr>],
                 pizza_to_ingredients = []\<rparr>,
           fixedPizzas = 1, fixedUsers = 1, fixedRatings = 1,
           maxPizzas = 1, maxUsers = 1, maxRatings = 1\<rparr>"
        Inr
        "[OpRecordUser (\<lambda>i. 0)
            \<lparr>user_tx = \<lparr>begin_fault = None, commit_fault = None\<rparr>,
              user_insert = Inr (2, 20), user_delete_fault = None\<rparr>
            \<lparr>ID = 0, Username = ''alice'', Token = [], Password = ''pw'', PasswordHash = []\<rparr>]"
        "\<lparr>row_id = 1, created_at = 10, cols = \<lparr>dough_id = 7\<rparr>\<rparr>"]
  by simp

text \<open>
  C5 (as amended). On a table with distinct identities and more than \<open>maximum\<close> rows
  (\<open>maximum > 0\<close>), after enforcement there remain the \<open>maximum\<close> selected rows and,
  on top of them, every row with identity at most \<open>fixed\<close> that is not selected; every
  row with identity at most \<open>fixed\<close> remains; exactly \<open>maximum\<close> rows remain when
  all the rows with identity at most \<open>fixed\<close> are among the selected ones.
\<close>

theorem enforce_row_count:
  assumes "distinct (map row_id tbl)" and "0 < maximum" and "nat maximum < length tbl"
  shows "length (snd (enforceTableSizeLimits None tbl fixed maximum)) =
           nat maximum +
           length (filter (\<lambda>r. row_id r \<le> fixed \<and> row_id r \<notin> set (newest_ids tbl maximum)) tbl) \<and>
         (\<forall>r\<in>set tbl. row_id r \<le> fixed \<longrightarrow>
            r \<in> set (snd (enforceTableSizeLimits None tbl fixed maximum))) \<and>
         ((\<forall>r\<in>set tbl. row_id r \<le> fixed \<longrightarrow> row_id r \<in> set (newest_ids tbl maximum)) \<longrightarrow>
            length (snd (enforceTableSizeLimits None tbl fixed maximum)) = nat maximum)"
proof -
  let ?n = "length (filter (\<lambda>r. row_id r \<le> fixed \<and> row_id r \<notin> set (newest_ids tbl maximum)) tbl)"
  from assms(3) have "min (nat maximum) (length tbl) = nat maximum" by simp
  with enforce_length [OF assms(1,2), of fixed]
  have len: "length (snd (enforceTableSizeLimits None tbl fixed maximum)) = nat maximum + ?n"
    by simp
  have "?n = 0" if "\<forall>r\<in>set tbl. row_id r \<le> fixed \<longrightarrow> row_id r \<in> set (newest_ids tbl maximum)"
    using that by (simp add: filter_empty_conv)
  with len show ?thesis
    by (auto simp: enforce_keeps_fixed)
qed

theorem enforce_row_count_witness:
  "length (snd (enforceTableSizeLimits None
     [\<lparr>row_id = 1, created_at = 10, cols = ()\<rparr>, \<lparr>row_id = 2, created_at = 20, cols = ()\<rparr>,
      \<lparr>row_id = 3, created_at = 30, cols = ()\<rparr>, \<lparr>row_id = 4, created_at = 40, cols = ()\<rparr>] 1 2)) = 3 \<and>
   \<lparr>row_id = 1, created_at = 10, cols = ()\<rparr> \<in> set (snd (enforceTableSizeLimits None
     [\<lparr>row_id = 1, created_at = 10, cols = ()\<rparr>, \<lparr>row_id = 2, created_at = 20, cols = ()\<rparr>,
      \<lparr>row_id = 3, created_at = 30, cols = ()\<rparr>, \<lparr>row_id = 4, created_at = 40, cols = ()\<rparr>] 1 2))"
  using enforce_row_count
    [of "[\<lparr>row_id = 1, created_at = 10, cols = ()\<rparr>, \<lparr>row_id = 2, created_at = 20, cols = ()\<rparr>,
      \<lparr>row_id = 3, created_at = 30, cols = ()\<rparr>, \<lparr>row_id = 4, created_at = 40, cols = ()\<rparr>]" 2 1]
  by (simp add: newest_ids_def order_created_at_desc_def)

text \<open>
  C5 as stated fails: three rows, \<open>fixed = 1\<close>, \<open>maximum = 2\<close>. The two newest rows
  are selected, the oldest is protected by its identity, and three rows remain. The
  comment of \<open>enforceTableSizeLimits\<close> says so: the first \<open>fixed\<close> rows are never
  deleted "even if this would make the table exceed N rows".
\<close>

theorem enforce_row_count_counterexample:
  "snd (enforceTableSizeLimits None
     [\<lparr>row_id = 1, created_at = 10, cols = ()\<rparr>, \<lparr>row_id = 2, created_at = 20, cols = ()\<rparr>,
      \<lparr>row_id = 3, created_at = 30, cols = ()\<rparr>] 1 2)
     = [\<lparr>row_id = 1, created_at = 10, cols = ()\<rparr>, \<lparr>row_id = 2, created_at = 20, cols = ()\<rparr>,
        \<lparr>row_id = 3, created_at = 30, cols = ()\<rparr>] \<and>
   length (snd (enforceTableSizeLimits None
     [\<lparr>row_id = 1, created_at = 10, cols = ()\<rparr>, \<lparr>row_id = 2, created_at = 20, cols = ()\<rparr>,
      \<lparr>row_id = 3, created_at = 30, cols = ()\<rparr>] 1 2)) \<noteq> nat 2"
  by (simp add: enforceTableSizeLimits_def newest_ids_def order_created_at_desc_def)

text \<open>
  C6. Enforcement is idempotent: a second call with the same parameters, on the table the
  first call left, returns no error and leaves the table as it is (and so does a second
  call whose DELETE the store fails).
\<close>

theorem enforceTableSizeLimits_idempotent:
  "enforceTableSizeLimits None (snd (enforceTableSizeLimits None tbl fixed maximum)) fixed maximum
     = (None, snd (enforceTableSizeLimits None tbl fixed maximum)) \<and>
   snd (enforceTableSizeLimits fault (snd (enforceTableSizeLimits None tbl fixed maximum)) fixed maximum)
     = snd (enforceTableSizeLimits None tbl fixed maximum)"
proof
  have "fst (enforceTableSizeLimits None t fixed maximum) = None" for t :: "'a table"
    by (simp add: enforceTableSizeLimits_def)
  moreover have "snd (enforceTableSizeLimits None (snd (enforceTableSizeLimits None tbl fixed maximum)) fixed maximum)
     = snd (enforceTableSizeLimits None tbl fixed maximum)"
    by (rule enforce_idem)
  ultimately show "enforceTableSizeLimits None (snd (enforceTableSizeLimits None tbl fixed maximum)) fixed maximum
     = (None, snd (enforceTableSizeLimits None tbl fixed maximum))"
    by (simp add: prod_eq_iff)
next
  show "snd (enforceTableSizeLimits fault (snd (enforceTableSizeLimits None tbl fixed maximum)) fixed maximum)
     = snd (enforceTableSizeLimits None tbl fixed maximum)"
    by (rule enforce_idem)
qed

theorem enforceTableSizeLimits_idempotent_witness:
  "enforceTableSizeLimits None
     [\<lparr>row_id = 1, created_at = 10, cols = ()\<rparr>, \<lparr>row_id = 2, created_at = 20, cols = ()\<rparr>,
      \<lparr>row_id = 3, created_at = 30, cols = ()\<rparr>] 1 1
     = (None, [\<lparr>row_id = 1, created_at = 10, cols = ()\<rparr>, \<lparr>row_id = 3, created_at = 30, cols = ()\<rparr>]) \<and>
   enforceTableSizeLimits None
     [\<lparr>row_id = 1, created_at = 10, cols = ()\<rparr>, \<lparr>row_id = 3, created_at = 30, cols = ()\<rparr>] 1 1
     = (None, [\<lparr>row_id = 1, created_at = 10, cols = ()\<rparr>, \<lparr>row_id = 3, created_at = 30, cols = ()\<rparr>])"
proof -
  have first: "enforceTableSizeLimits None
     [\<lparr>row_id = 1, created_at = 10, cols = ()\<rparr>, \<lparr>row_id = 2, created_at = 20, cols = ()\<rparr>,
      \<lparr>row_id = 3, created_at = 30, cols = ()\<rparr>] 1 1
     = (None, [\<lparr>row_id = 1, created_at = 10, cols = ()\<rparr>, \<lparr>row_id = 3, created_at = 30, cols = ()\<rparr>])"
    by (simp add: enforceTableSizeLimits_def newest_ids_def order_created_at_desc_def)
  with enforceTableSizeLimits_idempotent
    [of "[\<lparr>row_id = 1, created_at = 10, cols = ()\<rparr>, \<lparr>row_id = 2, created_at = 20, cols = ()\<rparr>,
      \<lparr>row_id = 3, created_at = 30, cols = ()\<rparr>]" 1 1 None]
  show ?thesis by simp
qed

section \<open>The claims about the recorder and the queries\<close>

subsection \<open>RecordUser\<close>

lemma Validate_None_iff:
  "Validate u = None \<longleftrightarrow>
     Username u \<noteq> [] \<and> length (Username u) \<le> 32 \<and> Username u \<noteq> ''default'' \<and> Password u \<noteq> []"
  by (auto simp: Validate_def MaxNameLength_def)

lemma enforce_error_iff:
  "fst (enforceTableSizeLimits fault tbl fixed maximum) = None \<longleftrightarrow> maximum \<le> 0 \<or> fault = None"
  by (simp add: enforceTableSizeLimits_def split: option.split)

lemma enforce_fault_snd:
  "fst (enforceTableSizeLimits fault tbl fixed maximum) = None \<Longrightarrow>
   snd (enforceTableSizeLimits fault tbl fixed maximum) = snd (enforceTableSizeLimits None tbl fixed maximum)"
  by (simp add: enforceTableSizeLimits_def split: option.splits if_splits)

lemma record_user_tx_ok_iff:
  "fst (record_user_tx st c u d) = None \<longleftrightarrow>
     (\<exists>i t. user_insert st = Inr (i, t)) \<and> (maxUsers c \<le> 0 \<or> user_delete_fault st = None)"
  by (auto simp: record_user_tx_def Let_def case_prod_beta enforce_error_iff split: sum.splits)

lemma RunInTx_ok_iff:
  "fst (RunInTx tx fn m d) = None \<longleftrightarrow>
     begin_fault tx = None \<and> fst (fn m d) = None \<and> commit_fault tx = None"
  by (auto simp: RunInTx_def split: option.splits prod.splits)

lemma RunInTx_ok_db:
  "fst (RunInTx tx fn m d) = None \<Longrightarrow> snd (snd (RunInTx tx fn m d)) = snd (snd (fn m d))"
  by (auto simp: RunInTx_def split: option.splits prod.splits)

lemma RecordUser_result:
  "HashPassword (Password u) = Inr h \<Longrightarrow>
   RecordUser HashPassword rnd st c u =
     (let R = RunInTx (user_tx st) (record_user_tx st c)
                (u\<lparr>PasswordHash := h, Token := GenerateUserToken rnd\<rparr>) (db c)
      in (fst R, fst (snd R), c\<lparr>db := snd (snd R)\<rparr>))"
  by (simp add: RecordUser_def Let_def case_prod_beta)

lemma RecordUser_ok_iff:
  "fst (RecordUser HashPassword rnd st c u) = None \<longleftrightarrow>
     (\<exists>h. HashPassword (Password u) = Inr h) \<and> begin_fault (user_tx st) = None \<and>
     (\<exists>i t. user_insert st = Inr (i, t)) \<and> (maxUsers c \<le> 0 \<or> user_delete_fault st = None) \<and>
     commit_fault (user_tx st) = None"
proof (cases "HashPassword (Password u)")
  case (Inl e)
  then show ?thesis by (simp add: RecordUser_def)
next
  case (Inr h)
  then show ?thesis
    by (simp add: RecordUser_result Let_def RunInTx_ok_iff record_user_tx_ok_iff)
qed

lemma RecordUser_abort:
  assumes "fst (RecordUser HashPassword rnd st c u) \<noteq> None"
  shows "snd (snd (RecordUser HashPassword rnd st c u)) = c"
proof (cases "HashPassword (Password u)")
  case (Inl e)
  then show ?thesis by (simp add: RecordUser_def)
next
  case (Inr h)
  let ?R = "RunInTx (user_tx st) (record_user_tx st c)
                (u\<lparr>PasswordHash := h, Token := GenerateUserToken rnd\<rparr>) (db c)"
  from assms Inr have "fst ?R \<noteq> None"
    by (simp add: RecordUser_result Let_def)
  then have "snd (snd ?R) = db c" by (rule RunInTx_error_rollback)
  with Inr show ?thesis by (simp add: RecordUser_result Let_def)
qed

lemma RecordUser_inserted:
  assumes h: "HashPassword (Password u) = Inr h" and i: "user_insert st = Inr (i, t)"
    and ok: "fst (RecordUser HashPassword rnd st c u) = None"
  shows "users (db (snd (snd (RecordUser HashPassword rnd st c u)))) =
     snd (enforceTableSizeLimits None
       (users (db c) @ [\<lparr>row_id = i, created_at = t,
          cols = \<lparr>username = Username u, token = GenerateUserToken rnd, password_hash = h\<rparr>\<rparr>])
       (fixedUsers c) (maxUsers c))"
proof -
  let ?u1 = "u\<lparr>PasswordHash := h, Token := GenerateUserToken rnd\<rparr>"
  let ?R = "RunInTx (user_tx st) (record_user_tx st c) ?u1 (db c)"
  let ?tbl = "users (db c) @ [\<lparr>row_id = i, created_at = t,
          cols = \<lparr>username = Username u, token = GenerateUserToken rnd, password_hash = h\<rparr>\<rparr>]"
  from ok h have R: "fst ?R = None" by (simp add: RecordUser_result Let_def)
  then have db: "snd (snd ?R) = snd (snd (record_user_tx st c ?u1 (db c)))"
    by (rule RunInTx_ok_db)
  from R have "fst (record_user_tx st c ?u1 (db c)) = None"
    by (simp add: RunInTx_ok_iff)
  with i have e: "fst (enforceTableSizeLimits (user_delete_fault st) ?tbl (fixedUsers c) (maxUsers c)) = None"
    by (simp add: record_user_tx_def Let_def case_prod_beta)
  have "users (snd (snd (record_user_tx st c ?u1 (db c))))
      = snd (enforceTableSizeLimits (user_delete_fault st) ?tbl (fixedUsers c) (maxUsers c))"
    using i by (simp add: record_user_tx_def Let_def case_prod_beta)
  also have "\<dots> = snd (enforceTableSizeLimits None ?tbl (fixedUsers c) (maxUsers c))"
    using e by (rule enforce_fault_snd)
  finally show ?thesis using h db by (simp add: RecordUser_result Let_def)
qed

text \<open>
  C3 (as amended). \<open>Validate\<close> accepts a candidate exactly when the username is
  non-empty, at most 32 bytes long and not \<open>default\<close>, and the password is non-empty.
  \<open>RecordUser\<close> does not call it: validation is left to the caller. For every
  candidate, valid or not, \<open>RecordUser\<close> computes the digest, generates the token,
  inserts and enforces. It returns no error exactly when the digest, the begin of the
  transaction, the insert, the enforcer's DELETE (when \<open>maxUsers > 0\<close>) and the commit
  all succeed; when it returns an error the catalog is as before, so no row is left
  behind; when it returns no error the users table is the enforced table with the new
  row appended.
\<close>

theorem RecordUser_does_not_validate:
  "(Validate u = None \<longleftrightarrow>
      Username u \<noteq> [] \<and> length (Username u) \<le> 32 \<and> Username u \<noteq> ''default'' \<and>
      Password u \<noteq> []) \<and>
   (fst (RecordUser HashPassword rnd st c u) = None \<longleftrightarrow>
      (\<exists>h. HashPassword (Password u) = Inr h) \<and> begin_fault (user_tx st) = None \<and>
      (\<exists>i t. user_insert st = Inr (i, t)) \<and>
      (maxUsers c \<le> 0 \<or> user_delete_fault st = None) \<and> commit_fault (user_tx st) = None) \<and>
   (fst (RecordUser HashPassword rnd st c u) \<noteq> None \<longrightarrow>
      snd (snd (RecordUser HashPassword rnd st c u)) = c) \<and>
   (HashPassword (Password u) = Inr h \<and> user_insert st = Inr (i, t) \<and>
    fst (RecordUser HashPassword rnd st c u) = None \<longrightarrow>
      users (db (snd (snd (RecordUser HashPassword rnd st c u)))) =
        snd (enforceTableSizeLimits None
          (users (db c) @ [\<lparr>row_id = i, created_at = t,
             cols = \<lparr>username = Username u, token = GenerateUserToken rnd, password_hash = h\<rparr>\<rparr>])
          (fixedUsers c) (maxUsers c)))"
  using Validate_None_iff [of u] RecordUser_ok_iff [of HashPassword rnd st c u]
    RecordUser_abort [of HashPassword rnd st c u]
    RecordUser_inserted [of HashPassword u h st i t rnd c]
  by blast

theorem RecordUser_does_not_validate_witness:
  "Validate \<lparr>ID = 0, Username = ''alice'', Token = [], Password = ''pw'', PasswordHash = []\<rparr> = None \<and>
   fst (RecordUser Inr (\<lambda>i. 0)
     \<lparr>user_tx = \<lparr>begin_fault = None, commit_fault = None\<rparr>,
       user_insert = Inr (1, 100), user_delete_fault = None\<rparr>
     \<lparr>db = \<lparr>users = [], pizzas = [], pizza_to_ingredients = []\<rparr>,
       fixedPizzas = 100, fixedUsers = 10, fixedRatings = 10,
       maxPizzas = 5000, maxUsers = 5000, maxRatings = 10000\<rparr>
     \<lparr>ID = 0, Username = ''alice'', Token = [], Password = ''pw'', PasswordHash = []\<rparr>) = None \<and>
   users (db (snd (snd (RecordUser Inr (\<lambda>i. 0)
     \<lparr>user_tx = \<lparr>begin_fault = None, commit_fault = None\<rparr>,
       user_insert = Inr (1, 100), user_delete_fault = None\<rparr>
     \<lparr>db = \<lparr>users = [], pizzas = [], pizza_to_ingredients = []\<rparr>,
       fixedPizzas = 100, fixedUsers = 10, fixedRatings = 10,
       maxPizzas = 5000, maxUsers = 5000, maxRatings = 10000\<rparr>
     \<lparr>ID = 0, Username = ''alice'', Token = [], Password = ''pw'', PasswordHash = []\<rparr>)))) =
     [\<lparr>row_id = 1, created_at = 100,
       cols = \<lparr>username = ''alice'', token = GenerateUserToken (\<lambda>i. 0), password_hash = ''pw''\<rparr>\<rparr>]"
  using RecordUser_does_not_validate
    [of "\<lparr>ID = 0, Username = ''alice'', Token = [], Password = ''pw'', PasswordHash = []\<rparr>"
        Inr "\<lambda>i. 0"
        "\<lparr>user_tx = \<lparr>begin_fault = None, commit_fault = None\<rparr>,
          user_insert = Inr (1, 100), user_delete_fault = None\<rparr>"
        "\<lparr>db = \<lparr>users = [], pizzas = [], pizza_to_ingredients = []\<rparr>,
          fixedPizzas = 100, fixedUsers = 10, fixedRatings = 10,
          maxPizzas = 5000, maxUsers = 5000, maxRatings = 10000\<rparr>"
        "''pw''" 1 100]
  by (simp add: enforceTableSizeLimits_def)

text \<open>
  C3 as stated fails: the candidate with the reserved username \<open>default\<close> is rejected
  by \<open>Validate\<close>, and \<open>RecordUser\<close> inserts its row and returns no error.
\<close>

theorem RecordUser_reserved_name_counterexample:
  "Validate \<lparr>ID = 0, Username = ''default'', Token = [], Password = ''pw'', PasswordHash = []\<rparr>
     = Some (ValidationError ''username field is invalid'') \<and>
   fst (RecordUser Inr (\<lambda>i. 0)
     \<lparr>user_tx = \<lparr>begin_fault = None, commit_fault = None\<rparr>,
       user_insert = Inr (1, 100), user_delete_fault = None\<rparr>
     \<lparr>db = \<lparr>users = [], pizzas = [], pizza_to_ingredients = []\<rparr>,
       fixedPizzas = 100, fixedUsers = 10, fixedRatings = 10,
       maxPizzas = 5000, maxUsers = 5000, maxRatings = 10000\<rparr>
     \<lparr>ID = 0, Username = ''default'', Token = [], Password = ''pw'', PasswordHash = []\<rparr>) = None \<and>
   users (db (snd (snd (RecordUser Inr (\<lambda>i. 0)
     \<lparr>user_tx = \<lparr>begin_fault = None, commit_fault = None\<rparr>,
       user_insert = Inr (1, 100), user_delete_fault = None\<rparr>
     \<lparr>db = \<lparr>users = [], pizzas = [], pizza_to_ingredients = []\<rparr>,
       fixedPizzas = 100, fixedUsers = 10, fixedRatings = 10,
       maxPizzas = 5000, maxUsers = 5000, maxRatings = 10000\<rparr>
     \<lparr>ID = 0, Username = ''default'', Token = [], Password = ''pw'', PasswordHash = []\<rparr>)))) =
     [\<lparr>row_id = 1, created_at = 100,
       cols = \<lparr>username = ''default'', token = GenerateUserToken (\<lambda>i. 0), password_hash = ''pw''\<rparr>\<rparr>]"
  by (simp add: Validate_def MaxNameLength_def RecordUser_def RunInTx_def record_user_tx_def
      enforceTableSizeLimits_def Let_def)

text \<open>
  C9. \<open>RecordUser\<close> writes the digest and the new token into the caller's struct before
  the transaction opens. When the digest succeeds and then the transaction cannot begin,
  or the insert fails, or the insert succeeds and the enforcer's DELETE fails, the error
  is returned, the catalog is rolled back, and the struct keeps the new digest and token
  (and, after a successful insert, the identity the store assigned).
\<close>

theorem RecordUser_leaves_argument_mutated:
  assumes "HashPassword (Password u) = Inr h"
  shows "(begin_fault (user_tx st) = Some e \<longrightarrow>
            RecordUser HashPassword rnd st c u =
              (Some e, u\<lparr>PasswordHash := h, Token := GenerateUserToken rnd\<rparr>, c)) \<and>
         (begin_fault (user_tx st) = None \<and> user_insert st = Inl e \<longrightarrow>
            RecordUser HashPassword rnd st c u =
              (Some e, u\<lparr>PasswordHash := h, Token := GenerateUserToken rnd\<rparr>, c)) \<and>
         (begin_fault (user_tx st) = None \<and> user_insert st = Inr (i, t) \<and>
          0 < maxUsers c \<and> user_delete_fault st = Some e \<longrightarrow>
            RecordUser HashPassword rnd st c u =
              (Some e, u\<lparr>PasswordHash := h, Token := GenerateUserToken rnd, ID := i\<rparr>, c))"
  using assms
  by (simp add: RecordUser_def RunInTx_def record_user_tx_def enforceTableSizeLimits_def Let_def)

theorem RecordUser_leaves_argument_mutated_witness:
  "RecordUser Inr (\<lambda>i. 0)
     \<lparr>user_tx = \<lparr>begin_fault = None, commit_fault = None\<rparr>,
       user_insert = Inl (StorageError ''UNIQUE constraint failed: users.username''),
       user_delete_fault = None\<rparr>
     \<lparr>db = \<lparr>users = [], pizzas = [], pizza_to_ingredients = []\<rparr>,
       fixedPizzas = 100, fixedUsers = 10, fixedRatings = 10,
       maxPizzas = 5000, maxUsers = 5000, maxRatings = 10000\<rparr>
     \<lparr>ID = 0, Username = ''alice'', Token = ''old'', Password = ''pw'', PasswordHash = ''old''\<rparr>
   = (Some (StorageError ''UNIQUE constraint failed: users.username''),
      \<lparr>ID = 0, Username = ''alice'', Token = GenerateUserToken (\<lambda>i. 0), Password = ''pw'',
        PasswordHash = ''pw''\<rparr>,
      \<lparr>db = \<lparr>users = [], pizzas = [], pizza_to_ingredients = []\<rparr>,
        fixedPizzas = 100, fixedUsers = 10, fixedRatings = 10,
        maxPizzas = 5000, maxUsers = 5000, maxRatings = 10000\<rparr>) \<and>
   RecordUser Inr (\<lambda>i. 0)
     \<lparr>user_tx = \<lparr>begin_fault = None, commit_fault = None\<rparr>,
       user_insert = Inr (7, 100),
       user_delete_fault = Some (StorageError ''database is locked'')\<rparr>
     \<lparr>db = \<lparr>users = [], pizzas = [], pizza_to_ingredients = []\<rparr>,
       fixedPizzas = 100, fixedUsers = 10, fixedRatings = 10,
       maxPizzas = 5000, maxUsers = 5000, maxRatings = 10000\<rparr>
     \<lparr>ID = 0, Username = ''alice'', Token = ''old'', Password = ''pw'', PasswordHash = ''old''\<rparr>
   = (Some (StorageError ''database is locked''),
      \<lparr>ID = 7, Username = ''alice'', Token = GenerateUserToken (\<lambda>i. 0), Password = ''pw'',
        PasswordHash = ''pw''\<rparr>,
      \<lparr>db = \<lparr>users = [], pizzas = [], pizza_to_ingredients = []\<rparr>,
        fixedPizzas = 100, fixedUsers = 10, fixedRatings = 10,
        maxPizzas = 5000, maxUsers = 5000, maxRatings = 10000\<rparr>)"
  using RecordUser_leaves_argument_mutated
    [of Inr "\<lparr>ID = 0, Username = ''alice'', Token = ''old'', Password = ''pw'', PasswordHash = ''old''\<rparr>"
        "''pw''"
        "\<lparr>user_tx = \<lparr>begin_fault = None, commit_fault = None\<rparr>,
          user_insert = Inl (StorageError ''UNIQUE constraint failed: users.username''),
          user_delete_fault = None\<rparr>"
        "StorageError ''UNIQUE constraint failed: users.username''" "\<lambda>i. 0"
        "\<lparr>db = \<lparr>users = [], pizzas = [], pizza_to_ingredients = []\<rparr>,
          fixedPizzas = 100, fixedUsers = 10, fixedRatings = 10,
          maxPizzas = 5000, maxUsers = 5000, maxRatings = 10000\<rparr>" 0 0]
    RecordUser_leaves_argument_mutated
    [of Inr "\<lparr>ID = 0, Username = ''alice'', Token = ''old'', Password = ''pw'', PasswordHash = ''old''\<rparr>"
        "''pw''"
        "\<lparr>user_tx = \<lparr>begin_fault = None, commit_fault = None\<rparr>,
          user_insert = Inr (7, 100),
          user_delete_fault = Some (StorageError ''database is locked'')\<rparr>"
        "StorageError ''database is locked''" "\<lambda>i. 0"
        "\<lparr>db = \<lparr>users = [], pizzas = [], pizza_to_ingredients = []\<rparr>,
          fixedPizzas = 100, fixedUsers = 10, fixedRatings = 10,
          maxPizzas = 5000, maxUsers = 5000, maxRatings = 10000\<rparr>" 7 100]
  by simp

subsection \<open>LoginUser\<close>

lemma GetRecommendation_returns_error:
  "fst (scan i) = Some e \<Longrightarrow> e \<noteq> ErrNoRows \<Longrightarrow> snd (GetRecommendation scan i) = Some e"
  by (simp add: GetRecommendation_def case_prod_beta)

text \<open>
  C4 (a defect of the code). \<open>LoginUser\<close> never returns an error: it compares the
  error of the lookup with \<open>sql.ErrNoRows\<close> only, and goes on to check the password
  against the struct as the failed scan left it. A storage error of the lookup is lost,
  where \<open>GetRecommendation\<close>, with the same comparison, returns it
  (\<open>GetRecommendation_returns_error\<close>).
\<close>

theorem LoginUser_returns_no_error:
  "snd (LoginUser CheckPassword scan name passwordText) = None"
  by (simp add: LoginUser_def case_prod_beta)

theorem LoginUser_returns_no_error_witness:
  "LoginUser (\<lambda>p h. False) (\<lambda>n. (Some (StorageError ''connection refused''), zero_user))
     ''alice'' ''secret'' = (None, None)"
  using LoginUser_returns_no_error
    [of "\<lambda>p h. False" "\<lambda>n. (Some (StorageError ''connection refused''), zero_user)"
        "''alice''" "''secret''"]
  by (simp add: LoginUser_def)

lemma find_distinct_key:
  "distinct (map f xs) \<Longrightarrow> r \<in> set xs \<Longrightarrow> find (\<lambda>x. f x = f r) xs = Some r"
proof (induction xs)
  case Nil
  then show ?case by simp
next
  case (Cons x xs)
  show ?case
  proof (cases "x = r")
    case True
    then show ?thesis by simp
  next
    case False
    with Cons.prems have rin: "r \<in> set xs" and d: "distinct (map f xs)" by auto
    from Cons.prems(1) rin have "f x \<noteq> f r" by (auto simp: image_iff)
    with Cons.IH [OF d rin] show ?thesis by simp
  qed
qed

lemma LoginUser_select:
  "LoginUser CheckPassword (select_user tbl) name passwordText =
     (case find (\<lambda>r. username (cols r) = name) tbl of
        None \<Rightarrow> (None, None)
      | Some r \<Rightarrow>
          if CheckPassword passwordText (password_hash (cols r))
          then (Some (user_of_row r), None) else (None, None))"
  by (simp add: LoginUser_def select_user_def user_of_row_def split: option.split)

text \<open>
  C7. On the answer of a store that does not fail, \<open>LoginUser\<close> returns a user exactly
  when a row has the username and the plaintext verifies against that row's digest, and
  the user is that row's; it never returns an error; for an unknown username and for a
  failed verification it returns the same pair of nil and nil. With unique usernames,
  every row whose digest the plaintext verifies against logs in as that row.
\<close>

theorem LoginUser_returns_user_iff_verified:
  "(fst (LoginUser CheckPassword (select_user tbl) name passwordText) = Some u \<longleftrightarrow>
      (\<exists>r. find (\<lambda>r. username (cols r) = name) tbl = Some r \<and>
           CheckPassword passwordText (password_hash (cols r)) \<and> u = user_of_row r)) \<and>
   snd (LoginUser CheckPassword (select_user tbl) name passwordText) = None \<and>
   ((\<forall>r\<in>set tbl. username (cols r) \<noteq> name) \<longrightarrow>
      LoginUser CheckPassword (select_user tbl) name passwordText = (None, None)) \<and>
   (find (\<lambda>r. username (cols r) = name) tbl = Some r \<and>
    \<not> CheckPassword passwordText (password_hash (cols r)) \<longrightarrow>
      LoginUser CheckPassword (select_user tbl) name passwordText = (None, None)) \<and>
   (distinct (map (\<lambda>r. username (cols r)) tbl) \<and> r \<in> set tbl \<and>
    CheckPassword passwordText (password_hash (cols r)) \<longrightarrow>
      LoginUser CheckPassword (select_user tbl) (username (cols r)) passwordText =
        (Some (user_of_row r), None))"
proof (intro conjI impI)
  show "fst (LoginUser CheckPassword (select_user tbl) name passwordText) = Some u \<longleftrightarrow>
      (\<exists>r. find (\<lambda>r. username (cols r) = name) tbl = Some r \<and>
           CheckPassword passwordText (password_hash (cols r)) \<and> u = user_of_row r)"
    by (auto simp: LoginUser_select split: option.splits)
next
  show "snd (LoginUser CheckPassword (select_user tbl) name passwordText) = None"
    by (simp add: LoginUser_select split: option.split)
next
  assume "\<forall>r\<in>set tbl. username (cols r) \<noteq> name"
  then have "find (\<lambda>r. username (cols r) = name) tbl = None"
    by (simp add: find_None_iff)
  then show "LoginUser CheckPassword (select_user tbl) name passwordText = (None, None)"
    by (simp add: LoginUser_select)
next
  assume "find (\<lambda>r. username (cols r) = name) tbl = Some r \<and>
    \<not> CheckPassword passwordText (password_hash (cols r))"
  then show "LoginUser CheckPassword (select_user tbl) name passwordText = (None, None)"
    by (simp add: LoginUser_select)
next
  assume a: "distinct (map (\<lambda>r. username (cols r)) tbl) \<and> r \<in> set tbl \<and>
    CheckPassword passwordText (password_hash (cols r))"
  then have "find (\<lambda>x. username (cols x) = username (cols r)) tbl = Some r"
    using find_distinct_key [of "\<lambda>r. username (cols r)" tbl r] by simp
  with a show "LoginUser CheckPassword (select_user tbl) (username (cols r)) passwordText =
        (Some (user_of_row r), None)"
    by (simp add: LoginUser_select)
qed

theorem LoginUser_returns_user_iff_verified_witness:
  "LoginUser (\<lambda>p h. h = p @ ''#'')
     (select_user [\<lparr>row_id = 1, created_at = 10,
        cols = \<lparr>username = ''alice'', token = ''tok'', password_hash = ''secret#''\<rparr>\<rparr>])
     ''alice'' ''secret''
     = (Some \<lparr>ID = 1, Username = ''alice'', Token = ''tok'', Password = [],
              PasswordHash = ''secret#''\<rparr>, None) \<and>
   LoginUser (\<lambda>p h. h = p @ ''#'')
     (select_user [\<lparr>row_id = 1, created_at = 10,
        cols = \<lparr>username = ''alice'', token = ''tok'', password_hash = ''secret#''\<rparr>\<rparr>])
     ''alice'' ''wrong'' = (None, None) \<and>
   LoginUser (\<lambda>p h. h = p @ ''#'')
     (select_user [\<lparr>row_id = 1, created_at = 10,
        cols = \<lparr>username = ''alice'', token = ''tok'', password_hash = ''secret#''\<rparr>\<rparr>])
     ''bob'' ''secret'' = (None, None)"
  using LoginUser_returns_user_iff_verified
    [of "\<lambda>p h. h = p @ ''#''"
        "[\<lparr>row_id = 1, created_at = 10,
           cols = \<lparr>username = ''alice'', token = ''tok'', password_hash = ''secret#''\<rparr>\<rparr>]"
        "''alice''" "''wrong''" _
        "\<lparr>row_id = 1, created_at = 10,
           cols = \<lparr>username = ''alice'', token = ''tok'', password_hash = ''secret#''\<rparr>\<rparr>"]
    LoginUser_returns_user_iff_verified
    [of "\<lambda>p h. h = p @ ''#''"
        "[\<lparr>row_id = 1, created_at = 10,
           cols = \<lparr>username = ''alice'', token = ''tok'', password_hash = ''secret#''\<rparr>\<rparr>]"
        "''bob''" "''secret''" _
        "\<lparr>row_id = 1, created_at = 10,
           cols = \<lparr>username = ''alice'', token = ''tok'', password_hash = ''secret#''\<rparr>\<rparr>"]
  by (simp add: user_of_row_def)

subsection \<open>RecordRecommendation\<close>

text \<open>
  C8. When the check point is armed, \<open>RecordRecommendation\<close> returns the injected
  error, whatever the store would answer and whatever the pizza is: the catalog is as
  before (no pizza row, no join row), and the pizza struct is untouched, because the
  check point is consulted first.
\<close>

theorem RecordRecommendation_injected_error:
  "RecordRecommendation (Some e) st c p = Returns (Some e, p, c)"
  by (simp add: RecordRecommendation_def)

theorem RecordRecommendation_injected_error_witness:
  "RecordRecommendation (Some (InjectedError ''record-recommendation''))
     \<lparr>pizza_tx = \<lparr>begin_fault = None, commit_fault = None\<rparr>, pizza_insert = Inr (1, 100),
       join_faults = [], pizza_delete_fault = None\<rparr>
     \<lparr>db = \<lparr>users = [], pizzas = [], pizza_to_ingredients = []\<rparr>,
       fixedPizzas = 100, fixedUsers = 10, fixedRatings = 10,
       maxPizzas = 5000, maxUsers = 5000, maxRatings = 10000\<rparr>
     \<lparr>pizza_ID = 0, DoughID = 0, Dough = Some \<lparr>dough_ID = 3\<rparr>,
       Ingredients = [\<lparr>ingredient_ID = 5\<rparr>, \<lparr>ingredient_ID = 6\<rparr>]\<rparr>
   = Returns (Some (InjectedError ''record-recommendation''),
       \<lparr>pizza_ID = 0, DoughID = 0, Dough = Some \<lparr>dough_ID = 3\<rparr>,
         Ingredients = [\<lparr>ingredient_ID = 5\<rparr>, \<lparr>ingredient_ID = 6\<rparr>]\<rparr>,
       \<lparr>db = \<lparr>users = [], pizzas = [], pizza_to_ingredients = []\<rparr>,
         fixedPizzas = 100, fixedUsers = 10, fixedRatings = 10,
         maxPizzas = 5000, maxUsers = 5000, maxRatings = 10000\<rparr>)"
  by (rule RecordRecommendation_injected_error)

lemma record_recommendation_tx_DoughID:
  "DoughID (fst (snd (record_recommendation_tx st c p d))) = DoughID p"
  by (simp add: record_recommendation_tx_def Let_def case_prod_beta split: sum.split option.split)

lemma RunInTx_memory:
  "fst (snd (RunInTx tx fn m d)) = m \<or> fst (snd (RunInTx tx fn m d)) = fst (snd (fn m d))"
  by (simp add: RunInTx_def case_prod_beta split: option.split)

lemma RecordRecommendation_returns:
  assumes "Dough p = Some dgh"
  shows "\<exists>err p' c'. RecordRecommendation None st c p = Returns (err, p', c') \<and>
           DoughID p' = dough_ID dgh"
proof -
  let ?p1 = "p\<lparr>DoughID := dough_ID dgh\<rparr>"
  let ?R = "RunInTx (pizza_tx st) (record_recommendation_tx st c) ?p1 (db c)"
  have r: "RecordRecommendation None st c p = Returns (fst ?R, fst (snd ?R), c\<lparr>db := snd (snd ?R)\<rparr>)"
    using assms by (simp add: RecordRecommendation_def Let_def case_prod_beta)
  have "fst (snd ?R) = ?p1 \<or> fst (snd ?R) = fst (snd (record_recommendation_tx st c ?p1 (db c)))"
    by (rule RunInTx_memory)
  then have "DoughID (fst (snd ?R)) = dough_ID dgh"
    by (auto simp: record_recommendation_tx_DoughID)
  with r show ?thesis by blast
qed

text \<open>
  C10. \<open>RecordRecommendation\<close> panics exactly when the check point is not armed and the
  pizza's \<open>Dough\<close> is nil. With a \<open>Dough\<close> that is not nil the call returns, and the
  struct it leaves has the dough's identity in \<open>DoughID\<close>.
\<close>

theorem RecordRecommendation_panics_iff_nil_Dough:
  "(RecordRecommendation injected st c p = Panics \<longleftrightarrow> injected = None \<and> Dough p = None) \<and>
   (Dough p = Some dgh \<longrightarrow>
      (\<exists>err p' c'. RecordRecommendation None st c p = Returns (err, p', c') \<and>
         DoughID p' = dough_ID dgh))"
proof (intro conjI impI)
  show "RecordRecommendation injected st c p = Panics \<longleftrightarrow> injected = None \<and> Dough p = None"
    by (simp add: RecordRecommendation_def Let_def case_prod_beta split: option.split)
next
  assume "Dough p = Some dgh"
  then show "\<exists>err p' c'. RecordRecommendation None st c p = Returns (err, p', c') \<and>
         DoughID p' = dough_ID dgh"
    by (rule RecordRecommendation_returns)
qed

theorem RecordRecommendation_panics_iff_nil_Dough_witness:
  "RecordRecommendation None
     \<lparr>pizza_tx = \<lparr>begin_fault = None, commit_fault = None\<rparr>, pizza_insert = Inr (1, 100),
       join_faults = [], pizza_delete_fault = None\<rparr>
     \<lparr>db = \<lparr>users = [], pizzas = [], pizza_to_ingredients = []\<rparr>,
       fixedPizzas = 100, fixedUsers = 10, fixedRatings = 10,
       maxPizzas = 5000, maxUsers = 5000, maxRatings = 10000\<rparr>
     \<lparr>pizza_ID = 0, DoughID = 0, Dough = Some \<lparr>dough_ID = 3\<rparr>,
       Ingredients = [\<lparr>ingredient_ID = 5\<rparr>, \<lparr>ingredient_ID = 6\<rparr>]\<rparr> \<noteq> Panics \<and>
   RecordRecommendation None
     \<lparr>pizza_tx = \<lparr>begin_fault = None, commit_fault = None\<rparr>, pizza_insert = Inr (1, 100),
       join_faults = [], pizza_delete_fault = None\<rparr>
     \<lparr>db = \<lparr>users = [], pizzas = [], pizza_to_ingredients = []\<rparr>,
       fixedPizzas = 100, fixedUsers = 10, fixedRatings = 10,
       maxPizzas = 5000, maxUsers = 5000, maxRatings = 10000\<rparr>
     \<lparr>pizza_ID = 0, DoughID = 0, Dough = Some \<lparr>dough_ID = 3\<rparr>,
       Ingredients = [\<lparr>ingredient_ID = 5\<rparr>, \<lparr>ingredient_ID = 6\<rparr>]\<rparr>
   = Returns (None,
       \<lparr>pizza_ID = 1, DoughID = 3, Dough = Some \<lparr>dough_ID = 3\<rparr>,
         Ingredients = [\<lparr>ingredient_ID = 5\<rparr>, \<lparr>ingredient_ID = 6\<rparr>]\<rparr>,
       \<lparr>db = \<lparr>users = [],
               pizzas = [\<lparr>row_id = 1, created_at = 100, cols = \<lparr>dough_id = 3\<rparr>\<rparr>],
               pizza_to_ingredients =
                 [\<lparr>PizzaID = 1, IngredientID = 5\<rparr>, \<lparr>PizzaID = 1, IngredientID = 6\<rparr>]\<rparr>,
         fixedPizzas = 100, fixedUsers = 10, fixedRatings = 10,
         maxPizzas = 5000, maxUsers = 5000, maxRatings = 10000\<rparr>)"
  using RecordRecommendation_panics_iff_nil_Dough
    [of None
        "\<lparr>pizza_tx = \<lparr>begin_fault = None, commit_fault = None\<rparr>, pizza_insert = Inr (1, 100),
          join_faults = [], pizza_delete_fault = None\<rparr>"
        "\<lparr>db = \<lparr>users = [], pizzas = [], pizza_to_ingredients = []\<rparr>,
          fixedPizzas = 100, fixedUsers = 10, fixedRatings = 10,
          maxPizzas = 5000, maxUsers = 5000, maxRatings = 10000\<rparr>"
        "\<lparr>pizza_ID = 0, DoughID = 0, Dough = Some \<lparr>dough_ID = 3\<rparr>,
          Ingredients = [\<lparr>ingredient_ID = 5\<rparr>, \<lparr>ingredient_ID = 6\<rparr>]\<rparr>"
        "\<lparr>dough_ID = 3\<rparr>"]
  by (simp add: RecordRecommendation_def RunInTx_def record_recommendation_tx_def
      enforceTableSizeLimits_def newest_ids_def order_created_at_desc_def Let_def)

end
